theory Spec2Isabelle
  imports Complex_Main "HOL-Library.AList" "HOL-Library.Word"
begin

section \<open>Python values, dictionaries and the object store\<close>

text \<open>
  The notebooks work on the raw STAC items of a search result: JSON objects as Python
  values. A \<open>dict\<close> is an association list in insertion order (its keys are distinct in
  every value Python can build); \<open>PGeom\<close> is a shapely geometry (kept as its WKT text),
  \<open>PTime\<close> a pandas Timestamp, \<open>PNaT\<close> the missing timestamp and \<open>PNaN\<close> the missing
  cell of a DataFrame.
\<close>

type_synonym geometry = string

datatype timestamp = Timestamp (epoch_ns: int) (utcoffset: "int option")

datatype pyval =
    PNone
  | PBool bool
  | PNum rat
  | PStr string
  | PList "pyval list"
  | PDict "(string \<times> pyval) list"
  | PGeom geometry
  | PTime timestamp
  | PNaT
  | PNaN

type_synonym pydict = "(string \<times> pyval) list"

datatype error = KeyError string | TypeError | AttributeError | ValueError | LibraryError string

text \<open>\<open>d[k]\<close> and \<open>d[k] = v\<close> on a dict.\<close>

definition getitem :: "pydict \<Rightarrow> string \<Rightarrow> error + pyval" where
  "getitem d k = (case map_of d k of None \<Rightarrow> Inl (KeyError k) | Some v \<Rightarrow> Inr v)"

definition setitem :: "pydict \<Rightarrow> string \<Rightarrow> pyval \<Rightarrow> pydict" where
  "setitem d k v = AList.update k v d"

text \<open>
  The item records are mutable objects that the caller and the functions share, so they
  live in a store: the list \<open>items_dict\<close> of the search result, each record at its
  position, and behind them whatever a function allocates. A record owns its nested
  values (a parsed JSON document shares nothing), so a cell holds the whole tree.
  \<open>deepcopy\<close> allocates an equal record in a fresh cell.
\<close>

type_synonym store = "pydict list"

definition deepcopy :: "store \<Rightarrow> nat \<Rightarrow> nat \<times> store" where
  "deepcopy h r = (length h, h @ [h ! r])"

section \<open>The libraries the notebooks call\<close>

text \<open>
  \<open>shapely.geometry.shape\<close> and the parser behind \<open>pandas.to_datetime\<close> are parameters
  of the model: each returns a value or raises.
\<close>

record lib =
  shape :: "pyval \<Rightarrow> error + geometry"
  parse_datetime :: "pyval \<Rightarrow> error + timestamp"

text \<open>
  \<open>pandas.to_datetime\<close> on a column: a missing value becomes \<open>NaT\<close>, any other value is
  parsed, and the first value that does not parse raises.
\<close>

definition to_datetime1 :: "lib \<Rightarrow> pyval \<Rightarrow> error + pyval" where
  "to_datetime1 L v =
     (if v = PNaN \<or> v = PNone then Inr PNaT
      else (case parse_datetime L v of Inl e \<Rightarrow> Inl e | Inr t \<Rightarrow> Inr (PTime t)))"

fun to_datetime :: "lib \<Rightarrow> pyval list \<Rightarrow> error + pyval list" where
  "to_datetime L [] = Inr []"
| "to_datetime L (v # vs) =
     (case to_datetime1 L v of
        Inl e \<Rightarrow> Inl e
      | Inr t \<Rightarrow> (case to_datetime L vs of Inl e \<Rightarrow> Inl e | Inr ts \<Rightarrow> Inr (t # ts)))"

text \<open>
  A DataFrame: the column labels, one dict of cells per row (a label without a cell reads
  as NaN), the row labels and the name of the index.
\<close>

record dataframe =
  columns :: "string list"
  rows :: "pydict list"
  index :: "pyval list"
  index_name :: "string option"

definition cell :: "pydict \<Rightarrow> string \<Rightarrow> pyval" where
  "cell row c = (case map_of row c of None \<Rightarrow> PNaN | Some v \<Rightarrow> v)"

definition getcol :: "dataframe \<Rightarrow> string \<Rightarrow> pyval list" where
  "getcol df c = map (\<lambda>row. cell row c) (rows df)"

text \<open>\<open>df[c] = values\<close>, for values that carry the frame's own index.\<close>

definition setcol :: "dataframe \<Rightarrow> string \<Rightarrow> pyval list \<Rightarrow> dataframe" where
  "setcol df c vs =
     df\<lparr>columns := (if c \<in> set (columns df) then columns df else columns df @ [c]),
        rows := map (\<lambda>(row, v). setitem row c v) (zip (rows df) vs)\<rparr>"

text \<open>
  \<open>pandas.json_normalize\<close>: each record becomes one row; a nested dict is flattened
  into columns named by the dotted path of keys, every other value (a list too) stays one
  cell. The entries of a record that are not dicts come first.
\<close>

definition new_key :: "string \<Rightarrow> string \<Rightarrow> string" where
  "new_key key_string k = (if key_string = [] then k else key_string @ ''.'' @ k)"

fun normalise_json :: "string \<Rightarrow> pyval \<Rightarrow> (string \<times> pyval) list"
  and normalise_entries :: "string \<Rightarrow> (string \<times> pyval) list \<Rightarrow> (string \<times> pyval) list" where
  "normalise_json key_string (PDict kvs) = normalise_entries key_string kvs"
| "normalise_json key_string PNone = [(key_string, PNone)]"
| "normalise_json key_string (PBool b) = [(key_string, PBool b)]"
| "normalise_json key_string (PNum n) = [(key_string, PNum n)]"
| "normalise_json key_string (PStr s) = [(key_string, PStr s)]"
| "normalise_json key_string (PList xs) = [(key_string, PList xs)]"
| "normalise_json key_string (PGeom g) = [(key_string, PGeom g)]"
| "normalise_json key_string (PTime t) = [(key_string, PTime t)]"
| "normalise_json key_string PNaT = [(key_string, PNaT)]"
| "normalise_json key_string PNaN = [(key_string, PNaN)]"
| "normalise_entries key_string [] = []"
| "normalise_entries key_string ((k, v) # kvs) =
     normalise_json (new_key key_string k) v @ normalise_entries key_string kvs"

fun is_dict :: "pyval \<Rightarrow> bool" where
  "is_dict (PDict kvs) = True"
| "is_dict v = False"

definition dict_update :: "pydict \<Rightarrow> (string \<times> pyval) list \<Rightarrow> pydict" where
  "dict_update d kvs = foldl (\<lambda>acc (k, v). setitem acc k v) d kvs"

definition normalise_json_ordered :: "pydict \<Rightarrow> pydict" where
  "normalise_json_ordered d =
     dict_update (filter (\<lambda>(k, v). \<not> is_dict v) d)
       (normalise_entries [] (filter (\<lambda>(k, v). is_dict v) d))"

definition range_index :: "nat \<Rightarrow> pyval list" where
  "range_index n = map (\<lambda>i. PNum (of_nat i)) [0..<n]"

definition first_seen :: "string list \<Rightarrow> string list" where
  "first_seen ks = foldl (\<lambda>acc k. if k \<in> set acc then acc else acc @ [k]) [] ks"

definition DataFrame :: "pydict list \<Rightarrow> dataframe" where
  "DataFrame recs =
     \<lparr>columns = first_seen (concat (map (map fst) recs)), rows = recs,
      index = range_index (length recs), index_name = None\<rparr>"

definition json_normalize :: "pydict list \<Rightarrow> dataframe" where
  "json_normalize data = (if data = [] then DataFrame [] else DataFrame (map normalise_json_ordered data))"

text \<open>
  \<open>geopandas.GeoDataFrame(df)\<close> wraps the frame; it keeps every row, column and label.
\<close>

definition GeoDataFrame :: "dataframe \<Rightarrow> dataframe" where
  "GeoDataFrame df = df"

text \<open>
  \<open>df.set_index(c, inplace=True)\<close>: the column becomes the row labels and leaves the
  columns; a label that is not a column raises KeyError.
\<close>

definition set_index :: "dataframe \<Rightarrow> string \<Rightarrow> error + dataframe" where
  "set_index df c =
     (if c \<in> set (columns df)
      then Inr \<lparr>columns = removeAll c (columns df), rows = map (AList.delete c) (rows df),
                index = getcol df c, index_name = Some c\<rparr>
      else Inl (KeyError c))"

section \<open>The Item Normalizer\<close>

text \<open>
  \<^verbatim>\<open>
  def items_to_geodataframe(items):
      _items = []
      for i in items:
          _i = deepcopy(i)
          _i['geometry'] = shape(_i['geometry'])
          _items.append(_i)
      gdf = gpd.GeoDataFrame(pd.json_normalize(_items))
      for field in ['properties.datetime', 'properties.created', 'properties.updated']:
          if field in gdf:
              gdf[field] = pd.to_datetime(gdf[field])
      gdf.set_index('properties.datetime', inplace=True)
      return gdf
  \<close>
  The first loop, over the references of the items; \<open>acc\<close> is \<open>_items\<close>.
\<close>

fun copy_items :: "lib \<Rightarrow> store \<Rightarrow> nat list \<Rightarrow> nat list \<Rightarrow> (error + nat list) \<times> store" where
  "copy_items L h [] acc = (Inr acc, h)"
| "copy_items L h (i # is) acc =
     (case deepcopy h i of (c, h1) \<Rightarrow>
        (case getitem (h1 ! c) ''geometry'' of
           Inl e \<Rightarrow> (Inl e, h1)
         | Inr g \<Rightarrow>
             (case shape L g of
                Inl e \<Rightarrow> (Inl e, h1)
              | Inr s \<Rightarrow>
                  copy_items L (h1[c := setitem (h1 ! c) ''geometry'' (PGeom s)]) is (acc @ [c]))))"

definition timestamp_fields :: "string list" where
  "timestamp_fields = [''properties.datetime'', ''properties.created'', ''properties.updated'']"

fun parse_fields :: "lib \<Rightarrow> string list \<Rightarrow> dataframe \<Rightarrow> error + dataframe" where
  "parse_fields L [] gdf = Inr gdf"
| "parse_fields L (field # rest) gdf =
     (if field \<in> set (columns gdf)
      then (case to_datetime L (getcol gdf field) of
              Inl e \<Rightarrow> Inl e
            | Inr ts \<Rightarrow> parse_fields L rest (setcol gdf field ts))
      else parse_fields L rest gdf)"

text \<open>
  The store at entry is the list \<open>items\<close>; the function returns the table or the
  exception, and the store as it leaves it.
\<close>

definition items_to_geodataframe :: "lib \<Rightarrow> store \<Rightarrow> (error + dataframe) \<times> store" where
  "items_to_geodataframe L h =
     (case copy_items L h [0..<length h] [] of
        (Inl e, h') \<Rightarrow> (Inl e, h')
      | (Inr copies, h') \<Rightarrow>
          (case parse_fields L timestamp_fields
                  (GeoDataFrame (json_normalize (map (\<lambda>c. h' ! c) copies))) of
             Inl e \<Rightarrow> (Inl e, h')
           | Inr gdf \<Rightarrow>
               (case set_index gdf ''properties.datetime'' of
                  Inl e \<Rightarrow> (Inl e, h')
                | Inr gdf' \<Rightarrow> (Inr gdf', h'))))"

section \<open>The asset-URL rewriting step\<close>

text \<open>
  \<^verbatim>\<open>
  for item in items_dict:
      for a in item['assets']:
          if 'alternate' in item['assets'][a] and 's3' in item['assets'][a]['alternate']:
              item['assets'][a]['href'] = item['assets'][a]['alternate']['s3']['href']
          item['assets'][a]['href'] = item['assets'][a]['href'].replace('usgs-landsat-ard', 'usgs-landsat')
  \<close>
  The operators of Python the loop uses, on the values above. \<open>k in v\<close> tests the keys of
  a dict, the elements of a list and the substrings of a string, and raises TypeError on
  any other value; \<open>v[k]\<close> with a string \<open>k\<close> reads a dict and raises TypeError on any
  other value; \<open>s.replace(old, new)\<close> replaces the occurrences of a non-empty \<open>old\<close>
  from left to right, and a value that is not a string has no such method.
\<close>

fun str_contains :: "string \<Rightarrow> string \<Rightarrow> bool" where
  "str_contains sub [] = (sub = [])"
| "str_contains sub (c # s) = (take (length sub) (c # s) = sub \<or> str_contains sub s)"

fun str_replace :: "string \<Rightarrow> string \<Rightarrow> string \<Rightarrow> string" where
  "str_replace old new [] = []"
| "str_replace old new (c # s) =
     (if old \<noteq> [] \<and> take (length old) (c # s) = old
      then new @ str_replace old new (drop (length old - 1) s)
      else c # str_replace old new s)"

fun contains :: "pyval \<Rightarrow> string \<Rightarrow> error + bool" where
  "contains (PDict d) k = Inr (k \<in> fst ` set d)"
| "contains (PList xs) k = Inr (PStr k \<in> set xs)"
| "contains (PStr s) k = Inr (str_contains k s)"
| "contains v k = Inl TypeError"

fun subscript :: "pyval \<Rightarrow> string \<Rightarrow> error + pyval" where
  "subscript (PDict d) k = getitem d k"
| "subscript v k = Inl TypeError"

fun assign :: "pyval \<Rightarrow> string \<Rightarrow> pyval \<Rightarrow> error + pyval" where
  "assign (PDict d) k x = Inr (PDict (setitem d k x))"
| "assign v k x = Inl TypeError"

fun replace_method :: "pyval \<Rightarrow> string \<Rightarrow> string \<Rightarrow> error + pyval" where
  "replace_method (PStr s) old new = Inr (PStr (str_replace old new s))"
| "replace_method v old new = Inl AttributeError"

text \<open>
  \<open>for a in v\<close>: a dict yields its keys, a string its characters. A list of assets is not
  part of the data (STAC assets are a JSON object): the empty list yields nothing, and a
  list with elements stops at TypeError here, as Python does at \<open>item['assets'][a]\<close>
  unless the element is an integer.
\<close>

fun iter_keys :: "pyval \<Rightarrow> error + string list" where
  "iter_keys (PDict d) = Inr (map fst d)"
| "iter_keys (PStr s) = Inr (map (\<lambda>c. [c]) s)"
| "iter_keys (PList []) = Inr []"
| "iter_keys v = Inl TypeError"

text \<open>
  \<open>item['assets'][a]\<close>, and the assignment \<open>item['assets'][a]['href'] = v\<close>: the
  descriptor is updated in place, that is, inside the record that owns it.
\<close>

definition asset :: "pydict \<Rightarrow> string \<Rightarrow> error + pyval" where
  "asset item a = (case getitem item ''assets'' of Inl e \<Rightarrow> Inl e | Inr as \<Rightarrow> subscript as a)"

definition set_href :: "pydict \<Rightarrow> string \<Rightarrow> pyval \<Rightarrow> error + pydict" where
  "set_href item a v =
     (case getitem item ''assets'' of
        Inl e \<Rightarrow> Inl e
      | Inr as \<Rightarrow>
          (case subscript as a of
             Inl e \<Rightarrow> Inl e
           | Inr desc \<Rightarrow>
               (case assign desc ''href'' v of
                  Inl e \<Rightarrow> Inl e
                | Inr desc' \<Rightarrow>
                    (case assign as a desc' of
                       Inl e \<Rightarrow> Inl e
                     | Inr as' \<Rightarrow> Inr (setitem item ''assets'' as')))))"

text \<open>The two statements of the loop body, for the asset \<open>a\<close> of a record.\<close>

definition use_s3 :: "pydict \<Rightarrow> string \<Rightarrow> error + pydict" where
  "use_s3 item a =
     (case asset item a of
        Inl e \<Rightarrow> Inl e
      | Inr desc \<Rightarrow>
          (case contains desc ''alternate'' of
             Inl e \<Rightarrow> Inl e
           | Inr False \<Rightarrow> Inr item
           | Inr True \<Rightarrow>
               (case subscript desc ''alternate'' of
                  Inl e \<Rightarrow> Inl e
                | Inr alt \<Rightarrow>
                    (case contains alt ''s3'' of
                       Inl e \<Rightarrow> Inl e
                     | Inr False \<Rightarrow> Inr item
                     | Inr True \<Rightarrow>
                         (case subscript alt ''s3'' of
                            Inl e \<Rightarrow> Inl e
                          | Inr s3 \<Rightarrow>
                              (case subscript s3 ''href'' of
                                 Inl e \<Rightarrow> Inl e
                               | Inr v \<Rightarrow> set_href item a v))))))"

definition fix_bucket :: "pydict \<Rightarrow> string \<Rightarrow> error + pydict" where
  "fix_bucket item a =
     (case asset item a of
        Inl e \<Rightarrow> Inl e
      | Inr desc \<Rightarrow>
          (case subscript desc ''href'' of
             Inl e \<Rightarrow> Inl e
           | Inr v \<Rightarrow>
               (case replace_method v ''usgs-landsat-ard'' ''usgs-landsat'' of
                  Inl e \<Rightarrow> Inl e
                | Inr v' \<Rightarrow> set_href item a v')))"

text \<open>
  The inner loop over the asset names of the record at \<open>r\<close>, and the outer loop over
  the records; each returns the exception, if any, and the store it leaves.
\<close>

fun rewrite_assets :: "store \<Rightarrow> nat \<Rightarrow> string list \<Rightarrow> error option \<times> store" where
  "rewrite_assets h r [] = (None, h)"
| "rewrite_assets h r (a # as) =
     (case use_s3 (h ! r) a of
        Inl e \<Rightarrow> (Some e, h)
      | Inr item1 \<Rightarrow>
          (case fix_bucket item1 a of
             Inl e \<Rightarrow> (Some e, h[r := item1])
           | Inr item2 \<Rightarrow> rewrite_assets (h[r := item2]) r as))"

fun rewrite_items :: "store \<Rightarrow> nat list \<Rightarrow> error option \<times> store" where
  "rewrite_items h [] = (None, h)"
| "rewrite_items h (r # rs) =
     (case getitem (h ! r) ''assets'' of
        Inl e \<Rightarrow> (Some e, h)
      | Inr as \<Rightarrow>
          (case iter_keys as of
             Inl e \<Rightarrow> (Some e, h)
           | Inr ks \<Rightarrow>
               (case rewrite_assets h r ks of
                  (Some e, h') \<Rightarrow> (Some e, h')
                | (None, h') \<Rightarrow> rewrite_items h' rs)))"

definition update_urls :: "store \<Rightarrow> error option \<times> store" where
  "update_urls h = rewrite_items h [0..<length h]"

section \<open>The Ratio Index\<close>

text \<open>
  \<^verbatim>\<open>
  sentinel-2-l2a:
    assets:
      '*':
        data_type: uint16
        nodata: 0

  ndvi = ((dc['B08'] - dc['B04']) / (dc['B08'] + dc['B04'])).clip(0, 1).rename("ndvi")
  \<close>
  The bands are loaded as \<open>uint16\<close>, so at every pixel the difference and the sum are
  taken in 16 bits and wrap around; the division then gives a float: NaN for \<open>0 / 0\<close>,
  infinity for any other division by zero. The quotient is kept exact here: rounding is
  monotone and keeps 0 and 1, so it changes neither the range of the clipped value nor
  where it is NaN. \<open>clip\<close> keeps NaN and bounds every other value.
\<close>

datatype float = NaN | PosInf | NegInf | Finite rat

definition true_divide :: "16 word \<Rightarrow> 16 word \<Rightarrow> float" where
  "true_divide x y =
     (if y = 0 then (if x = 0 then NaN else PosInf)
      else Finite (of_nat (unat x) / of_nat (unat y)))"

fun clip :: "float \<Rightarrow> rat \<Rightarrow> rat \<Rightarrow> float" where
  "clip NaN lo hi = NaN"
| "clip PosInf lo hi = Finite hi"
| "clip NegInf lo hi = Finite lo"
| "clip (Finite q) lo hi = Finite (min (max q lo) hi)"

definition ndvi :: "16 word \<Rightarrow> 16 word \<Rightarrow> float" where
  "ndvi b08 b04 = clip (true_divide (b08 - b04) (b08 + b04)) 0 1"

section \<open>Vocabulary of the properties\<close>

text \<open>
  What one pass of the first loop does to a record, without the store: the copy with its
  geometry parsed. \<open>item_row\<close> is the row of the table that the record becomes.
\<close>

definition prepare :: "lib \<Rightarrow> pydict \<Rightarrow> error + pydict" where
  "prepare L d =
     (case getitem d ''geometry'' of
        Inl e \<Rightarrow> Inl e
      | Inr g \<Rightarrow> (case shape L g of Inl e \<Rightarrow> Inl e | Inr s \<Rightarrow> Inr (setitem d ''geometry'' (PGeom s))))"

fun prepare_all :: "lib \<Rightarrow> pydict list \<Rightarrow> error + pydict list" where
  "prepare_all L [] = Inr []"
| "prepare_all L (d # ds) =
     (case prepare L d of
        Inl e \<Rightarrow> Inl e
      | Inr c \<Rightarrow> (case prepare_all L ds of Inl e \<Rightarrow> Inl e | Inr cs \<Rightarrow> Inr (c # cs)))"

definition item_row :: "lib \<Rightarrow> pydict \<Rightarrow> error + pydict" where
  "item_row L d = (case prepare L d of Inl e \<Rightarrow> Inl e | Inr c \<Rightarrow> Inr (normalise_json_ordered c))"

definition conv :: "lib \<Rightarrow> pyval \<Rightarrow> pyval" where
  "conv L v = (case to_datetime1 L v of Inl e \<Rightarrow> v | Inr t \<Rightarrow> t)"

definition conv_row :: "lib \<Rightarrow> string list \<Rightarrow> pydict \<Rightarrow> pydict" where
  "conv_row L fs row = foldl (\<lambda>r f. setitem r f (conv L (cell r f))) row fs"

definition table :: "lib \<Rightarrow> pydict list \<Rightarrow> error + dataframe" where
  "table L cs =
     (case parse_fields L timestamp_fields (GeoDataFrame (json_normalize cs)) of
        Inl e \<Rightarrow> Inl e
      | Inr gdf \<Rightarrow> set_index gdf ''properties.datetime'')"


text \<open>
  The acquisition-time field of a record, as the table sees it. It is parseable when it
  is there and the parser accepts it; \<open>acquisition_time\<close> is then the timestamp the
  parser returns, with the UTC offset the text carries or without one. A timestamp is
  timezone-aware when it has an offset.
\<close>

definition acquisition :: "lib \<Rightarrow> pydict \<Rightarrow> pyval" where
  "acquisition L d = (case item_row L d of Inl e \<Rightarrow> PNaN | Inr row \<Rightarrow> cell row ''properties.datetime'')"




text \<open>
  An asset descriptor as the data model has it: a dict with an \<open>href\<close>, and perhaps a
  dict of alternates, each a dict with an \<open>href\<close> of its own. \<open>source_href\<close> is the
  address the rewriting starts from: that of the \<open>s3\<close> alternate when there is one, the
  descriptor's own otherwise.
\<close>

definition s3_alternate :: "pydict \<Rightarrow> pydict option" where
  "s3_alternate d =
     (case map_of d ''alternate'' of
        Some (PDict alt) \<Rightarrow> (case map_of alt ''s3'' of Some (PDict s3) \<Rightarrow> Some s3 | _ \<Rightarrow> None)
      | _ \<Rightarrow> None)"

definition href_of :: "pydict \<Rightarrow> string option" where
  "href_of d = (case map_of d ''href'' of Some (PStr u) \<Rightarrow> Some u | _ \<Rightarrow> None)"

definition source_href :: "pydict \<Rightarrow> string option" where
  "source_href d = (case s3_alternate d of Some s3 \<Rightarrow> href_of s3 | None \<Rightarrow> href_of d)"

definition wf_asset :: "pyval \<Rightarrow> bool" where
  "wf_asset v =
     (case v of
        PDict d \<Rightarrow>
          source_href d \<noteq> None \<and>
          (case map_of d ''alternate'' of
             None \<Rightarrow> True
           | Some (PDict alt) \<Rightarrow> (case map_of alt ''s3'' of None \<Rightarrow> True | Some (PDict s3) \<Rightarrow> True | _ \<Rightarrow> False)
           | _ \<Rightarrow> False)
      | _ \<Rightarrow> False)"

definition wf_assets :: "pydict \<Rightarrow> bool" where
  "wf_assets item =
     (case map_of item ''assets'' of
        Some (PDict as) \<Rightarrow> distinct (map fst as) \<and> (\<forall>v\<in>snd ` set as. wf_asset v)
      | _ \<Rightarrow> False)"

definition new_href :: "pydict \<Rightarrow> string" where
  "new_href d = str_replace ''usgs-landsat-ard'' ''usgs-landsat'' (the (source_href d))"

definition new_asset :: "pyval \<Rightarrow> pyval" where
  "new_asset v = (case v of PDict d \<Rightarrow> PDict (setitem d ''href'' (PStr (new_href d))) | _ \<Rightarrow> v)"

definition new_assets :: "(string \<times> pyval) list \<Rightarrow> string list \<Rightarrow> (string \<times> pyval) list" where
  "new_assets as ks = foldl (\<lambda>acc a. AList.map_entry a new_asset acc) as ks"

definition rewritten :: "pydict \<Rightarrow> pydict" where
  "rewritten item =
     (case map_of item ''assets'' of
        Some (PDict as) \<Rightarrow> setitem item ''assets'' (PDict (new_assets as (map fst as)))
      | _ \<Rightarrow> item)"

section \<open>Sample data\<close>

text \<open>
  An instance of the two library functions, to run the model on records: \<open>shape\<close> keeps
  the type name of a GeoJSON geometry; \<open>parse_datetime\<close> reads the digits of a
  date-time text as the instant, with offset 0 when the text ends in \<open>Z\<close> and without
  an offset otherwise, as pandas does for a text that names no zone. The records are cut
  down from a Landsat search result.
\<close>

definition digits :: "string \<Rightarrow> nat list" where
  "digits s = concat (map (\<lambda>c. case map_of (zip ''0123456789'' [0..<10]) c of
                                   None \<Rightarrow> [] | Some n \<Rightarrow> [n]) s)"

definition decimal :: "nat list \<Rightarrow> int" where
  "decimal ds = foldl (\<lambda>n d. 10 * n + int d) 0 ds"

definition example_lib :: lib where
  "example_lib =
     \<lparr>shape = (\<lambda>v. case v of
          PDict d \<Rightarrow> (case map_of d ''type'' of
                        Some (PStr t) \<Rightarrow> Inr t
                      | _ \<Rightarrow> Inl (LibraryError ''shape''))
        | _ \<Rightarrow> Inl (LibraryError ''shape'')),
      parse_datetime = (\<lambda>v. case v of
          PStr s \<Rightarrow> (if digits s = [] then Inl (LibraryError ''to_datetime'')
                     else Inr (Timestamp (decimal (digits s))
                                 (if last s = CHR ''Z'' then Some 0 else None)))
        | _ \<Rightarrow> Inl (LibraryError ''to_datetime''))\<rparr>"

definition item_a :: pydict where
  "item_a =
     [(''id'', PStr ''LC08_A''),
      (''geometry'', PDict [(''type'', PStr ''Point''), (''coordinates'', PList [PNum 1, PNum 2])]),
      (''properties'', PDict [(''datetime'', PStr ''2022-01-05T15:30:00Z''),
                              (''created'', PStr ''2022-01-06T00:00:00Z'')]),
      (''assets'', PDict [])]"

definition item_b :: pydict where
  "item_b =
     [(''id'', PStr ''LC08_B''),
      (''geometry'', PDict [(''type'', PStr ''Polygon''), (''coordinates'', PList [])]),
      (''properties'', PDict [(''datetime'', PStr ''2022-02-06T15:30:00Z'')]),
      (''assets'', PDict [])]"

definition asset_red :: pydict where
  "asset_red =
     [(''href'', PStr ''https://landsatlook.usgs.gov/data/red.TIF''),
      (''type'', PStr ''image/tiff''),
      (''alternate'', PDict [(''s3'', PDict [(''href'', PStr ''s3://usgs-landsat-ard/c2/red.TIF'')])])]"

definition asset_index :: pydict where
  "asset_index =
     [(''href'', PStr ''https://landsatlook.usgs.gov/stac-browser/index.html''),
      (''type'', PStr ''text/html'')]"

definition item_c :: pydict where
  "item_c =
     [(''id'', PStr ''LC08_C''),
      (''assets'', PDict [(''red'', PDict asset_red), (''index'', PDict asset_index)])]"


definition item_d :: pydict where
  "item_d =
     [(''id'', PStr ''LC08_D''),
      (''geometry'', PDict [(''type'', PStr ''Point''), (''coordinates'', PList [PNum 1, PNum 2])]),
      (''properties'', PDict [(''created'', PStr ''2022-01-06T00:00:00Z'')])]"

section \<open>The first loop of the normalizer\<close>


text \<open>Every write of the loop goes to a cell it has allocated itself.\<close>

lemma copy_items_frame: "n \<le> length h \<Longrightarrow> take n (snd (copy_items L h is acc)) = take n h"
proof (induction "is" arbitrary: h acc)
  case Nil
  then show ?case by simp
next
  case (Cons i "is")
  have "take n (snd (copy_items L ((h @ [h ! i])[length h := d]) is acc')) = take n h" for d acc'
    using Cons.IH [of "(h @ [h ! i])[length h := d]" acc'] Cons.prems by simp
  then show ?case
    using Cons.prems by (simp add: deepcopy_def split: sum.splits)
qed

lemma copy_items_ok:
  "\<forall>i\<in>set is. i < length h \<Longrightarrow> prepare_all L (map ((!) h) is) = Inr cs \<Longrightarrow>
   \<exists>refs. copy_items L h is acc = (Inr (acc @ refs), h @ cs) \<and> map ((!) (h @ cs)) refs = cs"
proof (induction "is" arbitrary: h acc cs)
  case Nil
  then show ?case by simp
next
  case (Cons i "is")
  from Cons.prems(2) obtain c cs' where c: "prepare L (h ! i) = Inr c"
    and cs': "prepare_all L (map ((!) h) is) = Inr cs'" and cs: "cs = c # cs'"
    by (auto split: sum.splits)
  from c obtain g s where g: "getitem (h ! i) ''geometry'' = Inr g" and s: "shape L g = Inr s"
    and c_def: "c = setitem (h ! i) ''geometry'' (PGeom s)"
    by (auto simp: prepare_def split: sum.splits)
  let ?h2 = "h @ [c]"
  have bound: "\<forall>i\<in>set is. i < length ?h2"
    using Cons.prems(1) by auto
  have same: "map ((!) ?h2) is = map ((!) h) is"
    using Cons.prems(1) by (simp add: nth_append)
  from Cons.IH [OF bound, of cs' "acc @ [length h]"] cs' same
  obtain refs where run: "copy_items L ?h2 is (acc @ [length h]) = (Inr ((acc @ [length h]) @ refs), ?h2 @ cs')"
    and refs: "map ((!) (?h2 @ cs')) refs = cs'"
    by auto
  have step: "copy_items L h (i # is) acc = copy_items L ?h2 is (acc @ [length h])"
    using g s c_def by (simp add: deepcopy_def)
  have "copy_items L h (i # is) acc = (Inr (acc @ (length h # refs)), h @ cs)"
    using step run cs by simp
  moreover have "map ((!) (h @ cs)) (length h # refs) = cs"
    using refs cs by simp
  ultimately show ?case by blast
qed

lemma copy_items_fail:
  "\<forall>i\<in>set is. i < length h \<Longrightarrow> prepare_all L (map ((!) h) is) = Inl e \<Longrightarrow>
   fst (copy_items L h is acc) = Inl e"
proof (induction "is" arbitrary: h acc)
  case Nil
  then show ?case by simp
next
  case (Cons i "is")
  show ?case
  proof (cases "prepare L (h ! i)")
    case (Inl e')
    with Cons.prems(2) have "e' = e" by simp
    with Inl show ?thesis
      by (auto simp: prepare_def deepcopy_def split: sum.splits)
  next
    case (Inr c)
    then obtain g s where g: "getitem (h ! i) ''geometry'' = Inr g" and s: "shape L g = Inr s"
      and c_def: "c = setitem (h ! i) ''geometry'' (PGeom s)"
      by (auto simp: prepare_def split: sum.splits)
    let ?h2 = "h @ [c]"
    have bound: "\<forall>i\<in>set is. i < length ?h2"
      using Cons.prems(1) by auto
    have same: "map ((!) ?h2) is = map ((!) h) is"
      using Cons.prems(1) by (simp add: nth_append)
    from Cons.prems(2) Inr have "prepare_all L (map ((!) h) is) = Inl e"
      by (auto split: sum.splits)
    then have "fst (copy_items L ?h2 is (acc @ [length h])) = Inl e"
      using Cons.IH [OF bound, of "acc @ [length h]"] same by simp
    moreover have "copy_items L h (i # is) acc = copy_items L ?h2 is (acc @ [length h])"
      using g s c_def by (simp add: deepcopy_def)
    ultimately show ?thesis by simp
  qed
qed

lemma items_to_geodataframe_ok:
  assumes "prepare_all L h = Inr cs"
  shows "items_to_geodataframe L h = (table L cs, h @ cs)"
proof -
  have "\<forall>i\<in>set [0..<length h]. i < length h" by simp
  with copy_items_ok [of "[0..<length h]" h L cs "[]"] assms
  obtain refs where run: "copy_items L h [0..<length h] [] = (Inr refs, h @ cs)"
    and refs: "map ((!) (h @ cs)) refs = cs"
    by (auto simp: map_nth)
  show ?thesis
    using run refs by (simp add: items_to_geodataframe_def table_def split: sum.splits)
qed

lemma items_to_geodataframe_fail:
  assumes "prepare_all L h = Inl e"
  shows "fst (items_to_geodataframe L h) = Inl e"
proof -
  have "fst (copy_items L h [0..<length h] []) = Inl e"
    using copy_items_fail [of "[0..<length h]" h L e "[]"] assms by (simp add: map_nth)
  then show ?thesis
    by (auto simp: items_to_geodataframe_def split: prod.splits sum.splits)
qed

section \<open>The table\<close>

lemma to_datetime_ok:
  "\<forall>v\<in>set vs. \<not> isl (to_datetime1 L v) \<Longrightarrow> to_datetime L vs = Inr (map (conv L) vs)"
  by (induction vs) (auto simp: conv_def split: sum.splits)

lemma cell_setitem: "cell (setitem row c v) c' = (if c' = c then v else cell row c')"
  by (simp add: cell_def setitem_def update_conv')

lemma setcol_conv:
  "c \<in> set (columns gdf) \<Longrightarrow>
   setcol gdf c (map (conv L) (getcol gdf c)) =
   gdf\<lparr>rows := map (\<lambda>row. setitem row c (conv L (cell row c))) (rows gdf)\<rparr>"
  by (simp add: setcol_def getcol_def zip_map2 zip_same_conv_map)

lemma parse_fields_ok:
  assumes "distinct fs"
    and "\<forall>row\<in>set (rows gdf). \<forall>f\<in>set fs. f \<in> set (columns gdf) \<longrightarrow> \<not> isl (to_datetime1 L (cell row f))"
  shows "parse_fields L fs gdf =
         Inr (gdf\<lparr>rows := map (conv_row L (filter (\<lambda>f. f \<in> set (columns gdf)) fs)) (rows gdf)\<rparr>)"
  using assms
proof (induction fs arbitrary: gdf)
  case Nil
  then show ?case by (simp add: conv_row_def)
next
  case (Cons f fs)
  show ?case
  proof (cases "f \<in> set (columns gdf)")
    case False
    then show ?thesis
      using Cons.IH [of gdf] Cons.prems by simp
  next
    case True
    let ?g = "gdf\<lparr>rows := map (\<lambda>row. setitem row f (conv L (cell row f))) (rows gdf)\<rparr>"
    have conv: "to_datetime L (getcol gdf f) = Inr (map (conv L) (getcol gdf f))"
      using Cons.prems(2) True by (intro to_datetime_ok) (simp add: getcol_def)
    have pre: "\<forall>row\<in>set (rows ?g). \<forall>f'\<in>set fs. f' \<in> set (columns ?g) \<longrightarrow>
                 \<not> isl (to_datetime1 L (cell row f'))"
      using Cons.prems by (auto simp: cell_setitem)
    have "parse_fields L fs ?g =
          Inr (?g\<lparr>rows := map (conv_row L (filter (\<lambda>f. f \<in> set (columns ?g)) fs)) (rows ?g)\<rparr>)"
      using Cons.IH [OF _ pre] Cons.prems(1) by simp
    then show ?thesis
      using True conv by (simp add: setcol_conv conv_row_def)
  qed
qed


lemma set_first_seen_aux:
  "set (foldl (\<lambda>acc k. if k \<in> set acc then acc else acc @ [k]) acc ks) = set acc \<union> set ks"
  by (induction ks arbitrary: acc) auto

lemma set_first_seen: "set (first_seen ks) = set ks"
  by (simp add: first_seen_def set_first_seen_aux)

lemma columns_json_normalize:
  "set (columns (json_normalize cs)) = (\<Union>c\<in>set cs. fst ` set (normalise_json_ordered c))"
  by (auto simp: json_normalize_def DataFrame_def set_first_seen)

lemma rows_json_normalize: "rows (json_normalize cs) = map normalise_json_ordered cs"
  by (simp add: json_normalize_def DataFrame_def)

lemma parse_timestamp_fields:
  assumes "\<forall>c\<in>set cs. \<forall>f\<in>set timestamp_fields.
             \<not> isl (to_datetime1 L (cell (normalise_json_ordered c) f))"
  shows "parse_fields L timestamp_fields (GeoDataFrame (json_normalize cs)) =
         Inr ((GeoDataFrame (json_normalize cs))
           \<lparr>rows := map (conv_row L (filter (\<lambda>f. f \<in> set (columns (GeoDataFrame (json_normalize cs))))
                                     timestamp_fields))
                       (rows (GeoDataFrame (json_normalize cs)))\<rparr>)"
proof -
  have d: "distinct timestamp_fields" by (simp add: timestamp_fields_def)
  have pre: "\<forall>row\<in>set (rows (GeoDataFrame (json_normalize cs))). \<forall>f\<in>set timestamp_fields.
               f \<in> set (columns (GeoDataFrame (json_normalize cs))) \<longrightarrow>
               \<not> isl (to_datetime1 L (cell row f))"
    using assms by (auto simp: GeoDataFrame_def rows_json_normalize)
  show ?thesis by (rule parse_fields_ok [OF d pre])
qed


text \<open>
  Without a column \<open>properties.datetime\<close> the loop over the timestamp fields passes, and
  \<open>set_index\<close> raises.
\<close>

lemma table_no_acquisition:
  assumes parse: "\<forall>c\<in>set cs. \<forall>f\<in>set timestamp_fields.
                    \<not> isl (to_datetime1 L (cell (normalise_json_ordered c) f))"
    and acq: "\<forall>c\<in>set cs. ''properties.datetime'' \<notin> fst ` set (normalise_json_ordered c)"
  shows "table L cs = Inl (KeyError ''properties.datetime'')"
proof -
  let ?g = "GeoDataFrame (json_normalize cs)"
  let ?fs = "filter (\<lambda>f. f \<in> set (columns ?g)) timestamp_fields"
  have pf: "parse_fields L timestamp_fields ?g = Inr (?g\<lparr>rows := map (conv_row L ?fs) (rows ?g)\<rparr>)"
    by (rule parse_timestamp_fields [OF parse])
  have col: "''properties.datetime'' \<notin> set (columns ?g)"
    using acq by (simp add: GeoDataFrame_def columns_json_normalize)
  show ?thesis
    using pf col by (simp add: table_def set_index_def)
qed

lemma normalizer_no_acquisition:
  assumes "prepare_all L h = Inr cs"
    and "\<forall>c\<in>set cs. \<forall>f\<in>set timestamp_fields.
           \<not> isl (to_datetime1 L (cell (normalise_json_ordered c) f))"
    and "\<forall>c\<in>set cs. ''properties.datetime'' \<notin> fst ` set (normalise_json_ordered c)"
  shows "fst (items_to_geodataframe L h) = Inl (KeyError ''properties.datetime'')"
  using items_to_geodataframe_ok [OF assms(1)] table_no_acquisition [OF assms(2,3)] by simp

section \<open>The normalizer on well-formed items\<close>






lemma acquisition_item_a: "acquisition example_lib item_a = PStr ''2022-01-05T15:30:00Z''"
  by code_simp

lemma acquisition_item_b: "acquisition example_lib item_b = PStr ''2022-02-06T15:30:00Z''"
  by code_simp



text \<open>
  Claim C2 says that the normalizer, applied to an empty list of items, returns a table
  with no rows and raises nothing. The code raises: the empty table has no column
  \<open>properties.datetime\<close>, the guarded loop over the timestamp fields skips it, and the
  unguarded \<open>set_index\<close> on that column raises KeyError.
\<close>

theorem empty_items_raise:
  "items_to_geodataframe L [] = (Inl (KeyError ''properties.datetime''), [])"
  by (simp add: items_to_geodataframe_def json_normalize_def DataFrame_def GeoDataFrame_def
      timestamp_fields_def set_index_def range_index_def first_seen_def)

text \<open>
  Claim C4, as amended: the normalizer changes no record of its input. Whatever it
  returns, a table or an exception, the cells that held the items when it was called hold
  the same records afterwards; it writes to its own copies only.
\<close>

theorem normalizer_keeps_items:
  "take (length h) (snd (items_to_geodataframe L h)) = h"
proof -
  have "take (length h) (snd (copy_items L h [0..<length h] [])) = take (length h) h"
    by (rule copy_items_frame) simp
  then show ?thesis
    by (auto simp: items_to_geodataframe_def split: prod.splits sum.splits)
qed

text \<open>
  Claim C5 says that an item set without one of the three timestamp columns is
  normalized without an error. For the creation and update columns that is what the
  code does (\<open>item_b\<close> above has neither). For the acquisition column it is not: the
  conversion is skipped, and \<open>set_index\<close> then raises KeyError.
\<close>

theorem missing_acquisition_raises:
  "fst (items_to_geodataframe example_lib [item_d]) = Inl (KeyError ''properties.datetime'')"
  by code_simp








section \<open>Properties of the asset-URL rewriting step\<close>

text \<open>
  \<open>replace\<close> leaves a string without the pattern as it is, and replaces the first
  occurrence and goes on behind it.
\<close>

lemma str_replace_absent: "\<not> str_contains old s \<Longrightarrow> str_replace old new s = s"
  by (induction s) auto

lemma str_replace_occurrence:
  "old \<noteq> [] \<Longrightarrow> str_replace old new (old @ s) = new @ str_replace old new s"
  by (cases old) simp_all

lemma str_replace_before:
  "\<not> str_contains old (pre @ butlast old) \<Longrightarrow> old \<noteq> [] \<Longrightarrow>
   str_replace old new (pre @ old @ s) = pre @ new @ str_replace old new s"
proof (induction pre)
  case Nil
  then show ?case by (simp add: str_replace_occurrence)
next
  case (Cons c pre)
  from Cons.prems(1) have no: "take (length old) (c # pre @ butlast old) \<noteq> old"
    and rest: "\<not> str_contains old (pre @ butlast old)"
    by auto
  have "take (length old) (c # pre @ old @ s) \<noteq> old"
  proof
    assume eq: "take (length old) (c # pre @ old @ s) = old"
    have "take (length old) (c # pre @ old @ s) = take (length old) (c # pre @ butlast old)"
      using Cons.prems(2) by (cases old rule: rev_cases) (auto simp: take_Cons')
    with eq no show False by simp
  qed
  then show ?case
    using Cons.IH [OF rest Cons.prems(2)] by simp
qed

lemma contains_dict: "contains (PDict d) k = Inr (map_of d k \<noteq> None)"
  by (simp add: map_of_eq_None_iff)

lemma map_of_setitem: "map_of (setitem d k v) = (map_of d)(k \<mapsto> v)"
  by (simp add: setitem_def update_conv')

lemma setitem_setitem [simp]: "setitem (setitem d k v) k v' = setitem d k v'"
  by (simp add: setitem_def)

lemma setitem_map_entry:
  "map_of as a = Some v \<Longrightarrow> setitem as a (f v) = AList.map_entry a f as"
  unfolding setitem_def
  by (induction as) (auto split: if_splits)

text \<open>The loop body on one well-formed descriptor.\<close>

lemma one_asset:
  assumes item: "map_of item ''assets'' = Some (PDict as)"
    and a: "map_of as a = Some (PDict d)"
    and wf: "wf_asset (PDict d)"
  shows "\<exists>item1. use_s3 item a = Inr item1 \<and>
           fix_bucket item1 a = Inr (setitem item ''assets'' (PDict (setitem as a (new_asset (PDict d)))))"
proof (cases "s3_alternate d")
  case None
  with wf obtain u where u: "map_of d ''href'' = Some (PStr u)"
    by (auto simp: wf_asset_def source_href_def href_of_def split: option.splits pyval.splits)
  have "use_s3 item a = Inr item"
    using item a wf None
    by (auto simp: use_s3_def asset_def getitem_def wf_asset_def s3_alternate_def contains_dict
        simp del: contains.simps split: option.splits pyval.splits)
  moreover have "fix_bucket item a = Inr (setitem item ''assets'' (PDict (setitem as a (new_asset (PDict d)))))"
    using item a u None
    by (simp add: fix_bucket_def asset_def getitem_def set_href_def new_asset_def new_href_def
        source_href_def href_of_def)
  ultimately show ?thesis by blast
next
  case (Some s3)
  then obtain alt where alt: "map_of d ''alternate'' = Some (PDict alt)"
    and s3: "map_of alt ''s3'' = Some (PDict s3)"
    by (auto simp: s3_alternate_def split: option.splits pyval.splits)
  from wf Some obtain u where u: "map_of s3 ''href'' = Some (PStr u)"
    by (auto simp: wf_asset_def source_href_def href_of_def split: option.splits pyval.splits)
  let ?d1 = "setitem d ''href'' (PStr u)"
  let ?item1 = "setitem item ''assets'' (PDict (setitem as a (PDict ?d1)))"
  have "use_s3 item a = Inr ?item1"
    using item a alt s3 u
    by (simp add: use_s3_def asset_def getitem_def set_href_def contains_dict del: contains.simps)
  moreover have "fix_bucket ?item1 a = Inr (setitem item ''assets'' (PDict (setitem as a (new_asset (PDict d)))))"
    using Some u
    by (simp add: fix_bucket_def asset_def getitem_def set_href_def setitem_def update_conv'
        new_asset_def new_href_def source_href_def href_of_def)
  ultimately show ?thesis by blast
qed

lemma rewrite_assets_ok:
  assumes "r < length h"
    and "map_of (h ! r) ''assets'' = Some (PDict as)"
    and "\<forall>a\<in>set ks. \<exists>d. map_of as a = Some (PDict d) \<and> wf_asset (PDict d)"
    and "distinct ks"
  shows "rewrite_assets h r ks =
         (None, h[r := setitem (h ! r) ''assets'' (PDict (new_assets as ks))])"
  using assms
proof (induction ks arbitrary: h as)
  case Nil
  then show ?case
    by (simp add: new_assets_def setitem_def update_triv)
next
  case (Cons a ks)
  from Cons.prems(3) obtain d where d: "map_of as a = Some (PDict d)" and wf: "wf_asset (PDict d)"
    by auto
  let ?as1 = "AList.map_entry a new_asset as"
  let ?item2 = "setitem (h ! r) ''assets'' (PDict ?as1)"
  let ?h2 = "h[r := ?item2]"
  from one_asset [OF Cons.prems(2) d wf] obtain item1 where
    s1: "use_s3 (h ! r) a = Inr item1" and s2: "fix_bucket item1 a = Inr ?item2"
    by (auto simp: setitem_map_entry [OF d])
  have step: "rewrite_assets h r (a # ks) = rewrite_assets ?h2 r ks"
    using s1 s2 by simp
  have r2: "r < length ?h2" using Cons.prems(1) by simp
  have cell2: "?h2 ! r = ?item2" using Cons.prems(1) by simp
  have assets2: "map_of (?h2 ! r) ''assets'' = Some (PDict ?as1)"
    by (simp add: cell2 map_of_setitem)
  have pre2: "\<forall>a'\<in>set ks. \<exists>d. map_of ?as1 a' = Some (PDict d) \<and> wf_asset (PDict d)"
    using Cons.prems(3,4) by (auto simp: map_of_map_entry)
  have "rewrite_assets ?h2 r ks =
        (None, ?h2[r := setitem (?h2 ! r) ''assets'' (PDict (new_assets ?as1 ks))])"
    using Cons.IH [OF r2 assets2 pre2] Cons.prems(4) by simp
  then show ?case
    using step by (simp add: cell2 new_assets_def)
qed

lemma wf_asset_dict: "wf_asset v \<Longrightarrow> \<exists>d. v = PDict d"
  by (cases v) (simp_all add: wf_asset_def)

lemma rewrite_item_ok:
  assumes r: "r < length h" and wf: "wf_assets (h ! r)"
  shows "\<exists>as. getitem (h ! r) ''assets'' = Inr (PDict as) \<and>
           rewrite_assets h r (map fst as) = (None, h[r := rewritten (h ! r)])"
proof -
  from wf obtain as where as: "map_of (h ! r) ''assets'' = Some (PDict as)"
    and dist: "distinct (map fst as)" and all: "\<forall>v\<in>snd ` set as. wf_asset v"
    by (auto simp: wf_assets_def split: option.splits pyval.splits)
  have pre: "\<forall>a\<in>set (map fst as). \<exists>d. map_of as a = Some (PDict d) \<and> wf_asset (PDict d)"
  proof
    fix a assume "a \<in> set (map fst as)"
    then obtain v where mem: "(a, v) \<in> set as" by auto
    with dist have look: "map_of as a = Some v" by simp
    from mem all have "wf_asset v" by force
    with wf_asset_dict obtain d where "v = PDict d" by blast
    with look \<open>wf_asset v\<close> show "\<exists>d. map_of as a = Some (PDict d) \<and> wf_asset (PDict d)" by simp
  qed
  have "rewrite_assets h r (map fst as) =
        (None, h[r := setitem (h ! r) ''assets'' (PDict (new_assets as (map fst as)))])"
    by (rule rewrite_assets_ok [OF r as pre dist])
  then show ?thesis
    using as by (simp add: getitem_def rewritten_def)
qed

lemma rewrite_items_ok:
  assumes "\<forall>r\<in>set rs. r < length h \<and> wf_assets (h ! r)" and "distinct rs"
  shows "rewrite_items h rs = (None, foldl (\<lambda>h r. h[r := rewritten (h ! r)]) h rs)"
  using assms
proof (induction rs arbitrary: h)
  case Nil
  then show ?case by simp
next
  case (Cons r rs)
  let ?h2 = "h[r := rewritten (h ! r)]"
  from Cons.prems(1) have r: "r < length h" and wf: "wf_assets (h ! r)" by auto
  from rewrite_item_ok [OF r wf] obtain as where
    as: "getitem (h ! r) ''assets'' = Inr (PDict as)"
    and run: "rewrite_assets h r (map fst as) = (None, ?h2)"
    by blast
  have step: "rewrite_items h (r # rs) = rewrite_items ?h2 rs"
    using as run by simp
  have pre: "\<forall>r'\<in>set rs. r' < length ?h2 \<and> wf_assets (?h2 ! r')"
  proof
    fix r' assume r': "r' \<in> set rs"
    with Cons.prems have "r' \<noteq> r" and "r' < length h" and "wf_assets (h ! r')" by auto
    then show "r' < length ?h2 \<and> wf_assets (?h2 ! r')" by simp
  qed
  have "rewrite_items ?h2 rs = (None, foldl (\<lambda>h r. h[r := rewritten (h ! r)]) ?h2 rs)"
    using Cons.IH [OF pre] Cons.prems(2) by simp
  then show ?case using step by simp
qed

lemma foldl_update_upt:
  "n \<le> length h \<Longrightarrow>
   foldl (\<lambda>h r. h[r := f (h ! r)]) h [0..<n] = map f (take n h) @ drop n h"
proof (induction n)
  case 0
  then show ?case by simp
next
  case (Suc n)
  then have n: "n < length h" by simp
  have "foldl (\<lambda>h r. h[r := f (h ! r)]) h [0..<Suc n] =
        (map f (take n h) @ drop n h)[n := f ((map f (take n h) @ drop n h) ! n)]"
    using Suc by simp
  also have "\<dots> = map f (take n h) @ (drop n h)[0 := f (h ! n)]"
    using n by (simp add: list_update_append nth_append)
  also have "drop n h = h ! n # drop (Suc n) h"
    using n by (simp add: Cons_nth_drop_Suc)
  also have "map f (take n h) @ (h ! n # drop (Suc n) h)[0 := f (h ! n)] =
             map f (take (Suc n) h) @ drop (Suc n) h"
    using n by (simp add: take_Suc_conv_app_nth)
  finally show ?case .
qed

text \<open>On well-formed records the two loops are a map over the store.\<close>

lemma update_urls_ok:
  assumes "\<forall>item\<in>set h. wf_assets item"
  shows "update_urls h = (None, map rewritten h)"
proof -
  have "rewrite_items h [0..<length h] =
        (None, foldl (\<lambda>h r. h[r := rewritten (h ! r)]) h [0..<length h])"
    using assms by (intro rewrite_items_ok) auto
  then show ?thesis
    by (simp add: update_urls_def foldl_update_upt)
qed

lemma map_of_new_assets:
  "distinct ks \<Longrightarrow>
   map_of (new_assets as ks) a = (if a \<in> set ks then map_option new_asset (map_of as a) else map_of as a)"
  unfolding new_assets_def
  by (induction ks arbitrary: as) (auto simp: map_of_map_entry split: option.splits)

lemma wf_assets_item_c: "wf_assets item_c"
  by code_simp

lemma asset_red_item_c: "asset item_c ''red'' = Inr (PDict asset_red)"
  by code_simp

lemma new_href_asset_red: "new_href asset_red = ''s3://usgs-landsat/c2/red.TIF''"
  by code_simp

text \<open>
  Claim C4, as stated, fails on the asset-URL rewriting step: it assigns to the records
  of the search result themselves, and the store it leaves differs from the one it got.
\<close>

theorem rewriting_mutates_items: "snd (update_urls [item_c]) \<noteq> [item_c]"
  by code_simp

text \<open>
  Claim C10. For every item and every asset descriptor, the rewriting step sets
  \<open>href\<close> to the address of the \<open>s3\<close> alternate when the descriptor has one and keeps
  the descriptor's own address otherwise, in both cases with the occurrences of
  \<open>usgs-landsat-ard\<close> replaced by \<open>usgs-landsat\<close> (\<open>new_href\<close>); it raises nothing and
  changes no other field of the descriptor.
\<close>

theorem asset_urls_rewritten:
  assumes "\<forall>item\<in>set h. wf_assets item"
  shows "\<exists>h'. update_urls h = (None, h') \<and> length h' = length h \<and>
           (\<forall>r<length h. \<forall>a d. asset (h ! r) a = Inr (PDict d) \<longrightarrow>
              (\<exists>d'. asset (h' ! r) a = Inr (PDict d') \<and>
                 map_of d' ''href'' = Some (PStr (new_href d)) \<and>
                 (\<forall>k. k \<noteq> ''href'' \<longrightarrow> map_of d' k = map_of d k)))"
proof -
  have run: "update_urls h = (None, map rewritten h)"
    by (rule update_urls_ok [OF assms])
  have each: "\<exists>d'. asset (map rewritten h ! r) a = Inr (PDict d') \<and>
                 map_of d' ''href'' = Some (PStr (new_href d)) \<and>
                 (\<forall>k. k \<noteq> ''href'' \<longrightarrow> map_of d' k = map_of d k)"
    if r: "r < length h" and a: "asset (h ! r) a = Inr (PDict d)" for r a d
  proof -
    from assms r have "wf_assets (h ! r)" by simp
    then obtain as where as: "map_of (h ! r) ''assets'' = Some (PDict as)"
      and dist: "distinct (map fst as)"
      by (auto simp: wf_assets_def split: option.splits pyval.splits)
    from a as have look: "map_of as a = Some (PDict d)"
      by (auto simp: asset_def getitem_def split: option.splits)
    then have mem: "a \<in> set (map fst as)"
      by (metis map_of_eq_None_iff option.distinct(1) set_map)
    let ?d' = "setitem d ''href'' (PStr (new_href d))"
    have "map_of (new_assets as (map fst as)) a = Some (PDict ?d')"
      using map_of_new_assets [OF dist, of as a] mem look by (simp add: new_asset_def)
    then have "asset (map rewritten h ! r) a = Inr (PDict ?d')"
      using r as by (simp add: rewritten_def asset_def getitem_def map_of_setitem)
    moreover have "map_of ?d' ''href'' = Some (PStr (new_href d))"
      by (simp add: map_of_setitem)
    moreover have "\<forall>k. k \<noteq> ''href'' \<longrightarrow> map_of ?d' k = map_of d k"
      by (simp add: map_of_setitem)
    ultimately show ?thesis by blast
  qed
  show ?thesis
    using run each by auto
qed

theorem asset_urls_rewritten_witness:
  "wf_assets item_c \<and>
   (\<exists>h' d'. update_urls [item_c] = (None, h') \<and> length h' = length [item_c] \<and>
      asset (h' ! 0) ''red'' = Inr (PDict d') \<and>
      map_of d' ''href'' = Some (PStr ''s3://usgs-landsat/c2/red.TIF'') \<and>
      map_of d' ''type'' = map_of asset_red ''type'')"
proof -
  have wf: "\<forall>item\<in>set [item_c]. wf_assets item"
    by (simp add: wf_assets_item_c)
  from asset_urls_rewritten [OF wf] obtain h' where
    run: "update_urls [item_c] = (None, h')" and len: "length h' = length [item_c]"
    and all: "\<forall>r<length [item_c]. \<forall>a d. asset ([item_c] ! r) a = Inr (PDict d) \<longrightarrow>
              (\<exists>d'. asset (h' ! r) a = Inr (PDict d') \<and>
                 map_of d' ''href'' = Some (PStr (new_href d)) \<and>
                 (\<forall>k. k \<noteq> ''href'' \<longrightarrow> map_of d' k = map_of d k))"
    by blast
  have "asset ([item_c] ! 0) ''red'' = Inr (PDict asset_red)"
    by (simp add: asset_red_item_c)
  with all obtain d' where d': "asset (h' ! 0) ''red'' = Inr (PDict d')"
    and href: "map_of d' ''href'' = Some (PStr (new_href asset_red))"
    and rest: "\<forall>k. k \<noteq> ''href'' \<longrightarrow> map_of d' k = map_of d k" if "d = asset_red" for d
    by force
  have "map_of d' ''type'' = map_of asset_red ''type''"
    using rest by simp
  then show ?thesis
    using wf_assets_item_c run len d' href by (auto simp: new_href_asset_red)
qed

section \<open>Properties of the Ratio Index\<close>

text \<open>Whatever the bands hold, the clipped ratio is NaN or lies between 0 and 1.\<close>

lemma ndvi_range: "ndvi a b = NaN \<or> (\<exists>q. ndvi a b = Finite q \<and> 0 \<le> q \<and> q \<le> 1)"
  by (auto simp: ndvi_def true_divide_def)

lemma double_mod: "n < 65536 \<Longrightarrow> (n + n) mod 65536 = 0 \<longleftrightarrow> n = 0 \<or> n = (32768::nat)"
proof (cases "n + n < 65536")
  case True
  then have "(n + n) mod 65536 = n + n" by (rule mod_less)
  with True show ?thesis by auto
next
  case False
  assume n: "n < 65536"
  from False have "(n + n) mod 65536 = (n + n - 65536) mod 65536"
    by (simp add: le_mod_geq)
  also have "\<dots> = n + n - 65536" using n by (intro mod_less) linarith
  finally show ?thesis using False by auto
qed

lemma double_zero: "(a :: 16 word) + a = 0 \<longleftrightarrow> a = 0 \<or> a = 32768"
proof -
  have lt: "unat a < 65536" using unsigned_less [of a, where ?'a = nat] by simp
  have sum: "unat (a + a) = (unat a + unat a) mod 2 ^ LENGTH(16)"
    by (rule unat_word_ariths)
  have "a + a = 0 \<longleftrightarrow> unat (a + a) = 0" by (simp only: unat_eq_0)
  also have "\<dots> \<longleftrightarrow> (unat a + unat a) mod 65536 = 0"
    unfolding sum by simp
  also have "\<dots> \<longleftrightarrow> unat a = 0 \<or> unat a = 32768"
    by (rule double_mod [OF lt])
  also have "\<dots> \<longleftrightarrow> a = 0 \<or> a = 32768"
  proof -
    have "unat (32768 :: 16 word) = 32768" by simp
    then have "unat a = 32768 \<longleftrightarrow> a = 32768"
      using word_unat_eq_iff [of a 32768] by simp
    then show ?thesis by (simp only: unat_eq_0)
  qed
  finally show ?thesis .
qed

text \<open>
  It is NaN where both bands are zero and also where both are 32768, whose sum wraps
  around to zero.
\<close>

lemma ndvi_nan_iff: "ndvi a b = NaN \<longleftrightarrow> a = b \<and> (a = 0 \<or> a = 32768)"
proof -
  have "ndvi a b = NaN \<longleftrightarrow> a - b = 0 \<and> a + b = 0"
    by (auto simp: ndvi_def true_divide_def)
  also have "\<dots> \<longleftrightarrow> a = b \<and> a + a = 0" by auto
  finally show ?thesis using double_zero [of a] by simp
qed

text \<open>
  Where the second band exceeds the first, the difference wraps around as well, and the
  clipped ratio is 1 where \<open>(a - b) / (a + b)\<close> is negative.
\<close>

lemma ndvi_wraps: "ndvi 200 300 = Finite 1"
  by (simp add: ndvi_def true_divide_def)

text \<open>
  Claim C3 says that the Ratio Index is NaN exactly at the pixels where both bands are
  zero. On the \<open>uint16\<close> bands of the cube it is NaN at a pixel where both bands are
  32768 too.
\<close>

theorem ndvi_nan_at_32768: "ndvi 32768 32768 = NaN"
  by (simp add: ndvi_def true_divide_def)

end
